theory Spec2Isabelle
  imports Main
begin

section \<open>Question rotation (QuestionService)\<close>

text \<open>
  A row of the questions table. The entity file is not among the sources; the fields are
  the ones the service reads and writes: the generated id, the text, the activation flag
  and the activation date (a \<open>YYYY-MM-DD\<close> string produced by moment).
\<close>

record question =
  q_id :: nat
  q_contents :: string
  q_activated :: bool
  q_activated_date :: string

text \<open>
  The questions table is the list of its rows in storage order. \<open>findOne\<close> without an
  order clause returns the first matching row in that order; with
  \<open>order: { id: 'DESC' }\<close> it returns the matching row with the greatest id.
\<close>

type_synonym question_repo = "question list"

datatype db_error = EmptyCriteria

fun greatest_id :: "question list \<Rightarrow> question option" where
  "greatest_id [] = None"
| "greatest_id (q # qs) =
     (case greatest_id qs of
        None \<Rightarrow> Some q
      | Some r \<Rightarrow> if q_id r \<le> q_id q then Some q else Some r)"

definition findOne_question :: "bool \<Rightarrow> bool \<Rightarrow> question_repo \<Rightarrow> question option" where
  "findOne_question activated id_desc repo =
     (if id_desc then greatest_id (filter (\<lambda>q. q_activated q = activated) repo)
      else find (\<lambda>q. q_activated q = activated) repo)"

text \<open>
  \<open>repository.update(id, partial)\<close>: every row with that id receives the partial entity.
  An undefined id (the lookup found nothing) is an empty criteria, which the repository
  rejects.
\<close>

definition update_question ::
  "nat option \<Rightarrow> (question \<Rightarrow> question) \<Rightarrow> question_repo \<Rightarrow> db_error + question_repo" where
  "update_question ident partial repo =
     (case ident of
        None \<Rightarrow> Inl EmptyCriteria
      | Some i \<Rightarrow> Inr (map (\<lambda>q. if q_id q = i then partial q else q) repo))"

text \<open>
  \<open>activateQuestionTemplate(activated)\<close> returns a function; only calling that function
  touches the table. The order clause is attached when \<open>activated\<close> is true. The second
  argument is the value of \<open>moment().format('YYYY-MM-DD')\<close> at the call.
\<close>

definition activateQuestionTemplate ::
  "bool \<Rightarrow> string \<Rightarrow> question_repo \<Rightarrow> db_error + question_repo" where
  "activateQuestionTemplate activated = (\<lambda>activated_date repo.
     (let ident = map_option q_id (findOne_question activated activated repo)
      in update_question ident
           (\<lambda>q. q\<lparr>q_activated := \<not> activated, q_activated_date := activated_date\<rparr>) repo))"

text \<open>
  \<open>Promise.all\<close> over values that are not promises resolves to those values as they
  are: a function among them is not called. The table is passed through untouched.
\<close>

definition promise_all_values :: "'v list \<Rightarrow> 'st \<Rightarrow> 'v list \<times> 'st" where
  "promise_all_values vs st = (vs, st)"

text \<open>
  \<open>updateTodayQuestion\<close>, the body of the timer callback: the two functions built by
  \<open>activateQuestionTemplate\<close> are handed to \<open>Promise.all\<close>, then a line is logged.
  The one-second delay of \<open>setTimeout\<close> is not modelled.
\<close>

definition updateTodayQuestion :: "string \<Rightarrow> question_repo \<Rightarrow> question_repo" where
  "updateTodayQuestion today repo =
     snd (promise_all_values
            [activateQuestionTemplate True today, activateQuestionTemplate False today] repo)"

definition findQuestionById :: "nat \<Rightarrow> question_repo \<Rightarrow> question option" where
  "findQuestionById i repo = find (\<lambda>q. q_id q = i) repo"

definition activated_count :: "question_repo \<Rightarrow> nat" where
  "activated_count repo = length (filter q_activated repo)"

definition two_questions :: question_repo where
  "two_questions =
     [\<lparr>q_id = 1, q_contents = ''first'', q_activated = True, q_activated_date = ''2021-01-01''\<rparr>,
      \<lparr>q_id = 2, q_contents = ''second'', q_activated = False, q_activated_date = ''''\<rparr>]"

section \<open>Authentication workflow (AuthService)\<close>

subsection \<open>Rows and tables\<close>

datatype mode = Join | Change_password

text \<open>
  The \<open>user\<close> column of a verification holds \<open>JSON.stringify({ password, is_admin })\<close>
  and \<open>confirm\<close> reads it back with \<open>JSON.parse\<close>. The column is modelled by the
  object it encodes; a row written without the column holds \<open>None\<close>.
\<close>

record pending_user =
  pending_password :: string
  pending_is_admin :: bool

record verification =
  v_id :: nat
  v_email :: string
  v_nickname :: "string option"
  v_confirmCode :: string
  v_mode :: mode
  v_user :: "pending_user option"

record user =
  u_id :: nat
  u_email :: string
  u_nickname :: string
  u_password :: string
  u_is_admin :: bool
  u_firebaseToken :: "string option"

record mail =
  mail_from :: "string option"
  mail_to :: string
  mail_code :: string

text \<open>
  The two repositories are lists of rows in storage order, each with the next generated
  id; \<open>outbox\<close> collects the mails handed to the transporter.
\<close>

record store =
  users :: "user list"
  verifications :: "verification list"
  next_user_id :: nat
  next_verification_id :: nat
  outbox :: "mail list"

definition empty_store :: store where
  "empty_store = \<lparr>users = [], verifications = [], next_user_id = 0,
     next_verification_id = 0, outbox = []\<rparr>"

subsection \<open>Collaborators\<close>

text \<open>
  What the service is constructed with: bcrypt's \<open>hash(plain, salt)\<close> and
  \<open>compare(plain, hashed)\<close>, and the two configuration values it reads.
\<close>

record deps =
  bcrypt_hash :: "string \<Rightarrow> string \<Rightarrow> string"
  bcrypt_compare :: "string \<Rightarrow> string \<Rightarrow> bool"
  ADMIN_KEY :: "string option"
  EMAIL_ADDRESS :: "string option"

text \<open>
  What one call draws from outside: \<open>random_digits i\<close> is the value of
  \<open>Math.floor(Math.random() * CHARS.length)\<close> in iteration \<open>i\<close> of
  \<open>createConfirmCode\<close>, \<open>salt\<close> is the result of \<open>bcrypt.genSalt(12)\<close>, and
  \<open>mail_delivered\<close> tells whether \<open>sendMail\<close> resolves or rejects.
\<close>

record env =
  random_digits :: "nat \<Rightarrow> nat"
  salt :: string
  mail_delivered :: bool

text \<open>The values thrown inside the guarded blocks.\<close>

datatype thrown = Message string | UNAUTHORIZED_EXCEPTION | QueryFailedError | MailError

record joinDto =
  j_email :: string
  j_password :: string
  j_nickname :: string
  j_adminKey :: "string option"

record confirmDto =
  c_email :: string
  c_confirmCode :: string

record loginDto =
  l_email :: string
  l_password :: string

record changePasswordDto =
  cp_userId :: nat
  cp_password :: string
  cp_newPassword :: string

record confirmChangePasswordNotLoggedInDto =
  ccp_email :: string
  ccp_confirmCode :: string
  ccp_password :: string

subsection \<open>Helpers of the service\<close>

definition CHARS :: string where
  "CHARS = ''0123456789''"

definition VERIFY_NUMBER_LENGTH :: nat where
  "VERIFY_NUMBER_LENGTH = 6"

text \<open>\<open>s.substring(i, j)\<close> for \<open>i \<le> j\<close>; past the end it yields the empty string.\<close>

definition substring :: "string \<Rightarrow> nat \<Rightarrow> nat \<Rightarrow> string" where
  "substring s i j = take (j - i) (drop i s)"

text \<open>The loop of \<open>createConfirmCode\<close>: \<open>k\<close> iterations remain, \<open>i\<close> is the counter.\<close>

fun createConfirmCode_loop :: "(nat \<Rightarrow> nat) \<Rightarrow> nat \<Rightarrow> nat \<Rightarrow> string \<Rightarrow> string" where
  "createConfirmCode_loop rnd i 0 verifyNumber = verifyNumber"
| "createConfirmCode_loop rnd i (Suc k) verifyNumber =
     (let n = rnd i
      in createConfirmCode_loop rnd (Suc i) k (verifyNumber @ substring CHARS n (n + 1)))"

definition createConfirmCode :: "(nat \<Rightarrow> nat) \<Rightarrow> string" where
  "createConfirmCode rnd = createConfirmCode_loop rnd 0 VERIFY_NUMBER_LENGTH []"

definition encryptPassword :: "deps \<Rightarrow> env \<Rightarrow> string \<Rightarrow> string" where
  "encryptPassword d ev plain = bcrypt_hash d plain (salt ev)"

definition findVerification :: "string \<Rightarrow> mode \<Rightarrow> store \<Rightarrow> verification option" where
  "findVerification email md s =
     find (\<lambda>v. v_email v = email \<and> v_mode v = md) (verifications s)"

definition deleteVerification :: "string \<Rightarrow> mode \<Rightarrow> store \<Rightarrow> store" where
  "deleteVerification email md s =
     s\<lparr>verifications := filter (\<lambda>v. \<not> (v_email v = email \<and> v_mode v = md)) (verifications s)\<rparr>"

text \<open>\<open>verificationRepository.update(id, partial)\<close>: the rows with that id receive the partial entity.\<close>

definition update_verification :: "nat \<Rightarrow> (verification \<Rightarrow> verification) \<Rightarrow> store \<Rightarrow> store" where
  "update_verification ident partial s =
     s\<lparr>verifications := map (\<lambda>v. if v_id v = ident then partial v else v) (verifications s)\<rparr>"

text \<open>
  \<open>verificationRepository.save\<close> of a created entity: the row is appended under the next
  generated id.
\<close>

definition save_verification :: "verification \<Rightarrow> store \<Rightarrow> store" where
  "save_verification row s =
     s\<lparr>verifications := verifications s @ [row\<lparr>v_id := next_verification_id s\<rparr>],
       next_verification_id := Suc (next_verification_id s)\<rparr>"

text \<open>
  Modelled from the spec: the default of the \<open>mode\<close> column of the Verification entity,
  whose file is not among the sources. \<open>join\<close> creates its row without a mode and the
  spec has that row found again under (email, \<open>join\<close>).
\<close>

definition DEFAULT_MODE :: mode where
  "DEFAULT_MODE = Join"

text \<open>
  Modelled from the spec: \<open>findUserByEmail\<close> and \<open>findUserByNickname\<close> of UserService,
  which is not among the sources. The spec lists them as plain lookups of the user store
  by email and by nickname.
\<close>

definition findUserByEmail :: "string \<Rightarrow> store \<Rightarrow> user option" where
  "findUserByEmail email s = find (\<lambda>u. u_email u = email) (users s)"

definition findUserByNickname :: "string \<Rightarrow> store \<Rightarrow> user option" where
  "findUserByNickname nickname s = find (\<lambda>u. u_nickname u = nickname) (users s)"

text \<open>
  Modelled from the spec: the constraints of the User entity, whose file is not among the
  sources. The spec's data model makes email and nickname unique and gives every user an
  email, a nickname and a password hash; \<open>userRepository.save\<close> of a row that breaks this
  is rejected by the store and nothing is inserted. An accepted row is appended under the
  next generated id, without a push token.
\<close>

definition save_user ::
  "string \<Rightarrow> string option \<Rightarrow> pending_user option \<Rightarrow> store \<Rightarrow> thrown + store" where
  "save_user email nickname parsed s =
     (case nickname of
        None \<Rightarrow> Inl QueryFailedError
      | Some n \<Rightarrow>
         (case parsed of
            None \<Rightarrow> Inl QueryFailedError
          | Some p \<Rightarrow>
             if find (\<lambda>u. u_email u = email \<or> u_nickname u = n) (users s) = None
             then Inr (s\<lparr>users := users s @
                          [\<lparr>u_id = next_user_id s, u_email = email, u_nickname = n,
                            u_password = pending_password p, u_is_admin = pending_is_admin p,
                            u_firebaseToken = None\<rparr>],
                        next_user_id := Suc (next_user_id s)\<rparr>)
             else Inl QueryFailedError))"

definition sendConfirmEmail :: "deps \<Rightarrow> env \<Rightarrow> string \<Rightarrow> string \<Rightarrow> store \<Rightarrow> (thrown + unit) \<times> store" where
  "sendConfirmEmail d ev email confirmCode s =
     (if mail_delivered ev
      then (Inr (), s\<lparr>outbox := outbox s @
                       [\<lparr>mail_from = EMAIL_ADDRESS d, mail_to = email, mail_code = confirmCode\<rparr>]\<rparr>)
      else (Inl MailError, s))"

definition findUserPassword :: "(user \<Rightarrow> bool) \<Rightarrow> store \<Rightarrow> string option" where
  "findUserPassword wh s = map_option u_password (find wh (users s))"

definition updateUserPassword :: "deps \<Rightarrow> env \<Rightarrow> (user \<Rightarrow> bool) \<Rightarrow> string \<Rightarrow> store \<Rightarrow> store" where
  "updateUserPassword d ev wh plainPassword s =
     (let password = encryptPassword d ev plainPassword
      in s\<lparr>users := map (\<lambda>u. if wh u then u\<lparr>u_password := password\<rparr> else u) (users s)\<rparr>)"

definition checkJoinDataAvailability :: "string \<Rightarrow> string \<Rightarrow> store \<Rightarrow> string" where
  "checkJoinDataAvailability email nickname s =
     (let verificationIsExist = find (\<lambda>v. v_nickname v = Some nickname) (verifications s);
          nicknameIsExist = findUserByNickname nickname s;
          emailIsExist = findUserByEmail email s
      in if nicknameIsExist \<noteq> None \<or> emailIsExist \<noteq> None \<or> verificationIsExist \<noteq> None
         then (if emailIsExist \<noteq> None then ''Email'' else ''Nickname'')
         else ''available'')"

subsection \<open>The guarded blocks\<close>

text \<open>
  Each operation is \<open>try { body } catch (err) { exceptionHandler(err) }\<close>. The functions
  named \<open>_try\<close> are the bodies: they return what the body threw (\<open>Inl\<close>) or that it ran to
  its end (\<open>Inr\<close>), with the store as the body left it.
\<close>

definition join_try :: "deps \<Rightarrow> env \<Rightarrow> joinDto \<Rightarrow> store \<Rightarrow> (thrown + unit) \<times> store" where
  "join_try d ev dto s =
     (let emailHasVerification = findVerification (j_email dto) Join s;
          confirmCode = createConfirmCode (random_digits ev);
          password = encryptPassword d ev (j_password dto);
          parsed = \<lparr>pending_password = password,
                    pending_is_admin = (j_adminKey dto = ADMIN_KEY d)\<rparr>
      in case emailHasVerification of
           Some found \<Rightarrow>
             sendConfirmEmail d ev (j_email dto) confirmCode
               (update_verification (v_id found)
                  (\<lambda>v. v\<lparr>v_email := j_email dto, v_nickname := Some (j_nickname dto),
                         v_confirmCode := confirmCode, v_user := Some parsed\<rparr>) s)
         | None \<Rightarrow>
             (let joinDataAvailability = checkJoinDataAvailability (j_email dto) (j_nickname dto) s
              in if joinDataAvailability \<noteq> ''available''
                 then (Inl (Message (joinDataAvailability @ '' already exists.'')), s)
                 else sendConfirmEmail d ev (j_email dto) confirmCode
                        (save_verification
                           \<lparr>v_id = 0, v_email = j_email dto, v_nickname = Some (j_nickname dto),
                            v_confirmCode = confirmCode, v_mode = DEFAULT_MODE,
                            v_user = Some parsed\<rparr> s)))"

definition confirm_try :: "confirmDto \<Rightarrow> store \<Rightarrow> (thrown + unit) \<times> store" where
  "confirm_try dto s =
     (case find (\<lambda>v. v_email v = c_email dto \<and> v_confirmCode v = c_confirmCode dto
                     \<and> v_mode v = Join) (verifications s) of
        None \<Rightarrow> (Inl (Message ''Verification does not exists.''), s)
      | Some verification \<Rightarrow>
         (case save_user (v_email verification) (v_nickname verification)
                 (v_user verification) s of
            Inl err \<Rightarrow> (Inl err, s)
          | Inr s' \<Rightarrow> (Inr (), deleteVerification (v_email verification) Join s')))"

text \<open>
  \<open>login\<close> reads only. \<open>if (password)\<close> is false for a missing user and for an empty
  stored string.
\<close>

definition login_try :: "deps \<Rightarrow> loginDto \<Rightarrow> store \<Rightarrow> thrown + user option" where
  "login_try d dto s =
     (case findUserPassword (\<lambda>u. u_email u = l_email dto) s of
        None \<Rightarrow> Inl UNAUTHORIZED_EXCEPTION
      | Some password \<Rightarrow>
         if password \<noteq> [] \<and> bcrypt_compare d (l_password dto) password
         then Inr (findUserByEmail (l_email dto) s)
         else Inl UNAUTHORIZED_EXCEPTION)"

definition saveFirebaseTokenOfUser_try :: "nat \<Rightarrow> string \<Rightarrow> store \<Rightarrow> (thrown + unit) \<times> store" where
  "saveFirebaseTokenOfUser_try userId firebaseToken s =
     (Inr (), s\<lparr>users := map (\<lambda>u. if u_id u = userId
                                   then u\<lparr>u_firebaseToken := Some firebaseToken\<rparr> else u)
                            (users s)\<rparr>)"

definition changePassword_try ::
  "deps \<Rightarrow> env \<Rightarrow> changePasswordDto \<Rightarrow> store \<Rightarrow> (thrown + unit) \<times> store" where
  "changePassword_try d ev dto s =
     (case findUserPassword (\<lambda>u. u_id u = cp_userId dto) s of
        None \<Rightarrow> (Inl (Message ''User does not exist.''), s)
      | Some password \<Rightarrow>
         if password = [] then (Inl (Message ''User does not exist.''), s)
         else if \<not> bcrypt_compare d (cp_password dto) password
         then (Inl UNAUTHORIZED_EXCEPTION, s)
         else (Inr (), updateUserPassword d ev (\<lambda>u. u_id u = cp_userId dto)
                         (cp_newPassword dto) s))"

definition changePasswordNotLoggedIn_try ::
  "deps \<Rightarrow> env \<Rightarrow> string \<Rightarrow> store \<Rightarrow> (thrown + unit) \<times> store" where
  "changePasswordNotLoggedIn_try d ev email s =
     (case findUserByEmail email s of
        None \<Rightarrow> (Inl (Message ''User email does not exist.''), s)
      | Some usr \<Rightarrow>
         (let emailHasVerification = findVerification email Change_password s;
              confirmCode = createConfirmCode (random_digits ev)
          in sendConfirmEmail d ev email confirmCode
               (case emailHasVerification of
                  Some found \<Rightarrow>
                    update_verification (v_id found) (\<lambda>v. v\<lparr>v_confirmCode := confirmCode\<rparr>) s
                | None \<Rightarrow>
                    save_verification
                      \<lparr>v_id = 0, v_email = email, v_nickname = None,
                       v_confirmCode = confirmCode, v_mode = Change_password,
                       v_user = None\<rparr> s)))"

definition confirmChangePasswordNotLoggedIn_try ::
  "deps \<Rightarrow> env \<Rightarrow> confirmChangePasswordNotLoggedInDto \<Rightarrow> store \<Rightarrow> (thrown + unit) \<times> store" where
  "confirmChangePasswordNotLoggedIn_try d ev dto s =
     (case find (\<lambda>v. v_email v = ccp_email dto \<and> v_confirmCode v = ccp_confirmCode dto
                     \<and> v_mode v = Change_password) (verifications s) of
        None \<Rightarrow> (Inl (Message ''Verification does not exists.''), s)
      | Some verification \<Rightarrow>
         (Inr (), deleteVerification (ccp_email dto) Change_password
                    (updateUserPassword d ev (\<lambda>u. u_email u = ccp_email dto)
                       (ccp_password dto) s)))"

subsection \<open>The catch blocks\<close>

text \<open>
  \<open>exceptionHandler\<close> is imported from utils/error, which is not among the sources, so the
  operations take it as a parameter: applied to the thrown value it either returns
  (\<open>Produces\<close>, the catch block ends and the statement after it runs) or throws
  (\<open>Raises\<close>, the operation ends with that exception).
\<close>

datatype 'f handled = Produces 'f | Raises 'f

datatype ('f, 'a) completion = Threw 'f | Returned 'a

record status_response =
  success :: bool

text \<open>
  Modelled from the spec: \<open>SUCCESS_RESPONSE\<close> of constants/response, which is not among the
  sources; the spec calls it the generic success acknowledgment.
\<close>

definition SUCCESS_RESPONSE :: status_response where
  "SUCCESS_RESPONSE = \<lparr>success = True\<rparr>"

definition caught :: "(thrown \<Rightarrow> 'f handled) \<Rightarrow> thrown \<Rightarrow> 'a \<Rightarrow> ('f, 'a) completion" where
  "caught h err after = (case h err of Raises f \<Rightarrow> Threw f | Produces f \<Rightarrow> Returned after)"

text \<open>The shape shared by the operations that end in \<open>return SUCCESS_RESPONSE\<close>.\<close>

definition guarded ::
  "(thrown \<Rightarrow> 'f handled) \<Rightarrow> (thrown + unit) \<times> store \<Rightarrow> ('f, status_response) completion \<times> store" where
  "guarded h r =
     (case fst r of
        Inl err \<Rightarrow> (caught h err SUCCESS_RESPONSE, snd r)
      | Inr u \<Rightarrow> (Returned SUCCESS_RESPONSE, snd r))"

definition join ::
  "(thrown \<Rightarrow> 'f handled) \<Rightarrow> deps \<Rightarrow> env \<Rightarrow> joinDto \<Rightarrow> store
     \<Rightarrow> ('f, status_response) completion \<times> store" where
  "join h d ev dto s = guarded h (join_try d ev dto s)"

definition confirm ::
  "(thrown \<Rightarrow> 'f handled) \<Rightarrow> confirmDto \<Rightarrow> store \<Rightarrow> ('f, status_response) completion \<times> store" where
  "confirm h dto s = guarded h (confirm_try dto s)"

text \<open>
  \<open>login\<close> returns from inside the block; when the handler returns, the function runs off
  its end and yields \<open>undefined\<close>, here \<open>None\<close>.
\<close>

definition login ::
  "(thrown \<Rightarrow> 'f handled) \<Rightarrow> deps \<Rightarrow> loginDto \<Rightarrow> store \<Rightarrow> ('f, user option) completion" where
  "login h d dto s =
     (case login_try d dto s of
        Inl err \<Rightarrow> caught h err None
      | Inr found \<Rightarrow> Returned found)"

definition changePassword ::
  "(thrown \<Rightarrow> 'f handled) \<Rightarrow> deps \<Rightarrow> env \<Rightarrow> changePasswordDto \<Rightarrow> store
     \<Rightarrow> ('f, status_response) completion \<times> store" where
  "changePassword h d ev dto s = guarded h (changePassword_try d ev dto s)"

definition changePasswordNotLoggedIn ::
  "(thrown \<Rightarrow> 'f handled) \<Rightarrow> deps \<Rightarrow> env \<Rightarrow> string \<Rightarrow> store
     \<Rightarrow> ('f, status_response) completion \<times> store" where
  "changePasswordNotLoggedIn h d ev email s = guarded h (changePasswordNotLoggedIn_try d ev email s)"

definition confirmChangePasswordNotLoggedIn ::
  "(thrown \<Rightarrow> 'f handled) \<Rightarrow> deps \<Rightarrow> env \<Rightarrow> confirmChangePasswordNotLoggedInDto \<Rightarrow> store
     \<Rightarrow> ('f, status_response) completion \<times> store" where
  "confirmChangePasswordNotLoggedIn h d ev dto s =
     guarded h (confirmChangePasswordNotLoggedIn_try d ev dto s)"

text \<open>
  Modelled from the spec: \<open>exceptionHandler\<close> of utils/error, which is not among the
  sources. The spec describes it as the single function that accepts any thrown value and
  produces a uniform failure object, after which the operation still returns its success
  acknowledgment; the failure object here carries the thrown value.
\<close>

datatype failure = Failure thrown

definition exceptionHandler :: "thrown \<Rightarrow> failure handled" where
  "exceptionHandler err = Produces (Failure err)"

subsection \<open>Stores reached by running operations one after another\<close>

inductive reachable :: "deps \<Rightarrow> store \<Rightarrow> bool" for d :: deps where
  r_empty: "reachable d empty_store"
| r_join: "reachable d s \<Longrightarrow> reachable d (snd (join_try d ev dto s))"
| r_confirm: "reachable d s \<Longrightarrow> reachable d (snd (confirm_try cdto s))"
| r_token: "reachable d s \<Longrightarrow> reachable d (snd (saveFirebaseTokenOfUser_try userId token s))"
| r_changePassword: "reachable d s \<Longrightarrow> reachable d (snd (changePassword_try d ev pdto s))"
| r_changePasswordNotLoggedIn:
    "reachable d s \<Longrightarrow> reachable d (snd (changePasswordNotLoggedIn_try d ev email s))"
| r_confirmChangePasswordNotLoggedIn:
    "reachable d s \<Longrightarrow> reachable d (snd (confirmChangePasswordNotLoggedIn_try d ev qdto s))"

subsection \<open>Invariant of the stores\<close>

text \<open>
  Verification ids are distinct and below the next id, no two verifications share an
  (email, mode) pair, and every change_password verification belongs to the email of a
  user.
\<close>

definition store_inv :: "store \<Rightarrow> bool" where
  "store_inv s \<longleftrightarrow>
     distinct (map v_id (verifications s))
     \<and> (\<forall>v\<in>set (verifications s). v_id v < next_verification_id s)
     \<and> distinct (map (\<lambda>v. (v_email v, v_mode v)) (verifications s))
     \<and> (\<forall>v\<in>set (verifications s). v_mode v = Change_password \<longrightarrow>
           v_email v \<in> u_email ` set (users s))"

subsection \<open>Concrete collaborators, requests and stores\<close>

definition d0 :: deps where
  "d0 = \<lparr>bcrypt_hash = (\<lambda>plain salt. salt @ plain),
         bcrypt_compare = (\<lambda>plain hashed. 2 \<le> length hashed \<and> drop 2 hashed = plain),
         ADMIN_KEY = Some ''secret'', EMAIL_ADDRESS = Some ''noreply@x.com''\<rparr>"

definition ev0 :: env where
  "ev0 = \<lparr>random_digits = (\<lambda>i. i), salt = ''s1'', mail_delivered = True\<rparr>"

definition ev1 :: env where
  "ev1 = \<lparr>random_digits = (\<lambda>i. 9 - i), salt = ''s2'', mail_delivered = True\<rparr>"

definition dtoA :: joinDto where
  "dtoA = \<lparr>j_email = ''a@x.com'', j_password = ''pw1'', j_nickname = ''nick1'', j_adminKey = None\<rparr>"

definition dtoB :: joinDto where
  "dtoB = \<lparr>j_email = ''b@x.com'', j_password = ''pw2'', j_nickname = ''nick2'',
            j_adminKey = Some ''secret''\<rparr>"

definition dtoB2 :: joinDto where
  "dtoB2 = \<lparr>j_email = ''b@x.com'', j_password = ''pw3'', j_nickname = ''nick1'', j_adminKey = None\<rparr>"

definition mailA :: mail where
  "mailA = \<lparr>mail_from = Some ''noreply@x.com'', mail_to = ''a@x.com'', mail_code = ''012345''\<rparr>"

definition mailB :: mail where
  "mailB = \<lparr>mail_from = Some ''noreply@x.com'', mail_to = ''b@x.com'', mail_code = ''012345''\<rparr>"

definition mailB2 :: mail where
  "mailB2 = \<lparr>mail_from = Some ''noreply@x.com'', mail_to = ''b@x.com'', mail_code = ''987654''\<rparr>"

definition verificationA :: verification where
  "verificationA = \<lparr>v_id = 0, v_email = ''a@x.com'', v_nickname = Some ''nick1'',
     v_confirmCode = ''012345'', v_mode = Join,
     v_user = Some \<lparr>pending_password = ''s1pw1'', pending_is_admin = False\<rparr>\<rparr>"

definition verificationB :: verification where
  "verificationB = \<lparr>v_id = 1, v_email = ''b@x.com'', v_nickname = Some ''nick2'',
     v_confirmCode = ''012345'', v_mode = Join,
     v_user = Some \<lparr>pending_password = ''s1pw2'', pending_is_admin = True\<rparr>\<rparr>"

definition verificationB2 :: verification where
  "verificationB2 = \<lparr>v_id = 1, v_email = ''b@x.com'', v_nickname = Some ''nick1'',
     v_confirmCode = ''987654'', v_mode = Join,
     v_user = Some \<lparr>pending_password = ''s2pw3'', pending_is_admin = False\<rparr>\<rparr>"

definition userA :: user where
  "userA = \<lparr>u_id = 0, u_email = ''a@x.com'', u_nickname = ''nick1'', u_password = ''s1pw1'',
     u_is_admin = False, u_firebaseToken = None\<rparr>"

definition st1 :: store where
  "st1 = \<lparr>users = [], verifications = [verificationA], next_user_id = 0,
     next_verification_id = 1, outbox = [mailA]\<rparr>"

definition st2 :: store where
  "st2 = \<lparr>users = [userA], verifications = [], next_user_id = 1,
     next_verification_id = 1, outbox = [mailA]\<rparr>"

definition st3 :: store where
  "st3 = \<lparr>users = [userA], verifications = [verificationB], next_user_id = 1,
     next_verification_id = 2, outbox = [mailA, mailB]\<rparr>"

definition st4 :: store where
  "st4 = \<lparr>users = [userA], verifications = [verificationB2], next_user_id = 1,
     next_verification_id = 2, outbox = [mailA, mailB, mailB2]\<rparr>"

text \<open>The row the overwrite branch of \<open>join\<close> writes over a found verification.\<close>

definition overwritten :: "deps \<Rightarrow> env \<Rightarrow> joinDto \<Rightarrow> verification \<Rightarrow> verification" where
  "overwritten d ev dto v =
     v\<lparr>v_email := j_email dto, v_nickname := Some (j_nickname dto),
       v_confirmCode := createConfirmCode (random_digits ev),
       v_user := Some \<lparr>pending_password = bcrypt_hash d (j_password dto) (salt ev),
                      pending_is_admin = (j_adminKey dto = ADMIN_KEY d)\<rparr>\<rparr>"

definition dtoTakenBoth :: joinDto where
  "dtoTakenBoth = \<lparr>j_email = ''a@x.com'', j_password = ''pw4'', j_nickname = ''nick2'',
     j_adminKey = None\<rparr>"

definition dtoTakenNick :: joinDto where
  "dtoTakenNick = \<lparr>j_email = ''c@x.com'', j_password = ''pw4'', j_nickname = ''nick2'',
     j_adminKey = None\<rparr>"

section \<open>Properties of the rotation\<close>

text \<open>
  C1 (evaluation at the failing input). The claim says the rotation deactivates the
  activated question and activates the inactive question with the highest id, both
  stamped with today's date. On the table holding question 1 (activated) and question 2
  (inactive), \<open>updateTodayQuestion\<close> returns the table as it was: question 1 is still
  activated with its old date and question 2 is still inactive, because the functions
  built by \<open>activateQuestionTemplate\<close> are never called.
\<close>

theorem updateTodayQuestion_changes_nothing:
  "updateTodayQuestion ''2021-01-02'' two_questions = two_questions
   \<and> map_option q_activated (findQuestionById 1 (updateTodayQuestion ''2021-01-02'' two_questions))
       = Some True
   \<and> map_option q_activated_date (findQuestionById 1 (updateTodayQuestion ''2021-01-02'' two_questions))
       = Some ''2021-01-01''
   \<and> map_option q_activated (findQuestionById 2 (updateTodayQuestion ''2021-01-02'' two_questions))
       = Some False"
  by (simp add: updateTodayQuestion_def promise_all_values_def two_questions_def
      findQuestionById_def)

text \<open>
  C2. In every table where question 1 is activated and question 2 is not, after
  \<open>updateTodayQuestion\<close> exactly one of the two is activated (both are still found, and
  their flags differ), and the number of activated questions is what it was, so a table
  with at most one activated question keeps at most one.
\<close>

theorem updateTodayQuestion_exactly_one_of_two:
  assumes "findQuestionById 1 repo = Some a" and "q_activated a"
    and "findQuestionById 2 repo = Some b" and "\<not> q_activated b"
  shows "\<exists>a' b'. findQuestionById 1 (updateTodayQuestion today repo) = Some a'
           \<and> findQuestionById 2 (updateTodayQuestion today repo) = Some b'
           \<and> (q_activated a' \<noteq> q_activated b')
           \<and> activated_count (updateTodayQuestion today repo) = activated_count repo"
  using assms by (simp add: updateTodayQuestion_def promise_all_values_def)

theorem updateTodayQuestion_exactly_one_of_two_witness:
  "findQuestionById 1 two_questions = Some (two_questions ! 0)
   \<and> q_activated (two_questions ! 0)
   \<and> findQuestionById 2 two_questions = Some (two_questions ! 1)
   \<and> \<not> q_activated (two_questions ! 1)
   \<and> (\<exists>a' b'. findQuestionById 1 (updateTodayQuestion ''2021-01-02'' two_questions) = Some a'
           \<and> findQuestionById 2 (updateTodayQuestion ''2021-01-02'' two_questions) = Some b'
           \<and> (q_activated a' \<noteq> q_activated b')
           \<and> activated_count (updateTodayQuestion ''2021-01-02'' two_questions)
               = activated_count two_questions)"
proof -
  have h1: "findQuestionById 1 two_questions = Some (two_questions ! 0)"
    by (simp add: findQuestionById_def two_questions_def)
  have h2: "q_activated (two_questions ! 0)"
    by (simp add: two_questions_def)
  have h3: "findQuestionById 2 two_questions = Some (two_questions ! 1)"
    by (simp add: findQuestionById_def two_questions_def)
  have h4: "\<not> q_activated (two_questions ! 1)"
    by (simp add: two_questions_def)
  from updateTodayQuestion_exactly_one_of_two [OF h1 h2 h3 h4, of "''2021-01-02''"] h1 h2 h3 h4
  show ?thesis by blast
qed

section \<open>Lookups in lists of rows\<close>

lemma find_conj_Some:
  "find P xs = Some v \<Longrightarrow> Q v \<Longrightarrow> find (\<lambda>x. P x \<and> Q x) xs = Some v"
  by (induction xs) (auto split: if_splits)

lemma find_map_pres:
  "(\<And>x. x \<in> set xs \<Longrightarrow> P (g x) = P x) \<Longrightarrow> find P (map g xs) = map_option g (find P xs)"
  by (induction xs) auto

lemma find_append_None:
  "find P xs = None \<Longrightarrow> find P (xs @ ys) = find P ys"
  by (induction xs) (auto split: if_splits)

lemma find_filter_out: "find P (filter (\<lambda>x. \<not> P x) xs) = None"
  by (induction xs) auto

lemma find_Some_mem: "find P xs = Some v \<Longrightarrow> v \<in> set xs \<and> P v"
  by (induction xs) (auto split: if_splits)

lemma map_key_pres:
  "(\<And>x. x \<in> set xs \<Longrightarrow> k (g x) = k x) \<Longrightarrow> map k (map g xs) = map k xs"
  by (induction xs) auto

lemma same_id_same_row:
  assumes "distinct (map v_id vs)" "v \<in> set vs" "r \<in> set vs" "v_id r = v_id v"
  shows "r = v"
  using assms by (meson distinct_map inj_on_def)

section \<open>The invariant holds on every reached store\<close>

lemma inv_update:
  assumes inv: "store_inv s" and f: "findVerification e m s = Some v"
    and pres: "\<And>r. v_id (f r) = v_id r \<and> v_mode (f r) = v_mode r"
    and em: "v_email (f v) = v_email v"
  shows "store_inv (update_verification (v_id v) f s)"
proof -
  let ?g = "\<lambda>r. if v_id r = v_id v then f r else r"
  have vin: "v \<in> set (verifications s)"
    using f find_Some_mem unfolding findVerification_def by fastforce
  have d: "distinct (map v_id (verifications s))" using inv by (simp add: store_inv_def)
  have same: "\<And>r. r \<in> set (verifications s) \<Longrightarrow> v_id r = v_id v \<Longrightarrow> r = v"
    using same_id_same_row [OF d vin] by blast
  have k1: "map v_id (map ?g (verifications s)) = map v_id (verifications s)"
    by (rule map_key_pres) (simp add: pres)
  have ke: "\<And>r. r \<in> set (verifications s) \<Longrightarrow> v_email (?g r) = v_email r"
    using same em by auto
  have km: "\<And>r. v_mode (?g r) = v_mode r" by (simp add: pres)
  have k2: "map (\<lambda>v. (v_email v, v_mode v)) (map ?g (verifications s))
            = map (\<lambda>v. (v_email v, v_mode v)) (verifications s)"
    by (rule map_key_pres) (simp add: ke km)
  have k3: "\<forall>r\<in>set (map ?g (verifications s)). v_id r < next_verification_id s"
  proof
    fix r assume "r \<in> set (map ?g (verifications s))"
    then obtain x where x: "x \<in> set (verifications s)" and r: "r = ?g x" by auto
    have "v_id r = v_id x" using r pres by simp
    then show "v_id r < next_verification_id s" using inv x by (simp add: store_inv_def)
  qed
  have k4: "\<forall>r\<in>set (map ?g (verifications s)). v_mode r = Change_password \<longrightarrow>
             v_email r \<in> u_email ` set (users s)"
  proof
    fix r assume "r \<in> set (map ?g (verifications s))"
    then obtain x where x: "x \<in> set (verifications s)" and r: "r = ?g x" by auto
    have "v_email r = v_email x" "v_mode r = v_mode x" using r ke [OF x] km by simp_all
    then show "v_mode r = Change_password \<longrightarrow> v_email r \<in> u_email ` set (users s)"
      using inv x by (simp add: store_inv_def)
  qed
  have vs: "verifications (update_verification (v_id v) f s) = map ?g (verifications s)"
    and us: "users (update_verification (v_id v) f s) = users s"
    and nx: "next_verification_id (update_verification (v_id v) f s) = next_verification_id s"
    by (simp_all add: update_verification_def)
  show ?thesis
    unfolding store_inv_def vs us nx k1 k2
    using inv k3 k4 unfolding store_inv_def by blast
qed

lemma inv_save:
  assumes inv: "store_inv s"
    and fresh: "findVerification (v_email row) (v_mode row) s = None"
    and own: "v_mode row = Change_password \<longrightarrow> v_email row \<in> u_email ` set (users s)"
  shows "store_inv (save_verification row s)"
proof -
  let ?new = "row\<lparr>v_id := next_verification_id s\<rparr>"
  have nokey: "(v_email row, v_mode row) \<notin> set (map (\<lambda>v. (v_email v, v_mode v)) (verifications s))"
    using fresh unfolding findVerification_def find_None_iff by auto
  have noid: "next_verification_id s \<notin> set (map v_id (verifications s))"
    using inv unfolding store_inv_def by auto
  have vs: "verifications (save_verification row s) = verifications s @ [?new]"
    and us: "users (save_verification row s) = users s"
    and nx: "next_verification_id (save_verification row s) = Suc (next_verification_id s)"
    by (simp_all add: save_verification_def)
  have d1: "distinct (map v_id (verifications s @ [?new]))"
    using inv noid by (simp add: store_inv_def)
  have d2: "distinct (map (\<lambda>v. (v_email v, v_mode v)) (verifications s @ [?new]))"
    using inv nokey by (simp add: store_inv_def)
  have b1: "\<forall>v\<in>set (verifications s @ [?new]). v_id v < Suc (next_verification_id s)"
    using inv by (auto simp add: store_inv_def less_Suc_eq)
  have b2: "\<forall>v\<in>set (verifications s @ [?new]). v_mode v = Change_password \<longrightarrow>
              v_email v \<in> u_email ` set (users s)"
    using inv own by (auto simp add: store_inv_def)
  show ?thesis unfolding store_inv_def vs us nx using d1 d2 b1 b2 by blast
qed

lemma inv_delete:
  assumes inv: "store_inv s"
  shows "store_inv (deleteVerification e m s)"
proof -
  let ?keep = "\<lambda>v. \<not> (v_email v = e \<and> v_mode v = m)"
  have vs: "verifications (deleteVerification e m s) = filter ?keep (verifications s)"
    and us: "users (deleteVerification e m s) = users s"
    and nx: "next_verification_id (deleteVerification e m s) = next_verification_id s"
    by (simp_all add: deleteVerification_def)
  have d1: "distinct (map v_id (filter ?keep (verifications s)))"
    using inv by (simp add: store_inv_def distinct_map_filter)
  have d2: "distinct (map (\<lambda>v. (v_email v, v_mode v)) (filter ?keep (verifications s)))"
    using inv by (simp add: store_inv_def distinct_map_filter)
  have b: "\<forall>v\<in>set (filter ?keep (verifications s)). v_id v < next_verification_id s"
    "\<forall>v\<in>set (filter ?keep (verifications s)). v_mode v = Change_password \<longrightarrow>
              v_email v \<in> u_email ` set (users s)"
    using inv by (simp_all add: store_inv_def)
  show ?thesis unfolding store_inv_def vs us nx using d1 d2 b by blast
qed

lemma inv_mail: "store_inv s \<Longrightarrow> store_inv (snd (sendConfirmEmail d ev e c s))"
  by (simp add: sendConfirmEmail_def store_inv_def)

lemma inv_users:
  assumes inv: "store_inv s"
    and same: "verifications s' = verifications s"
      "next_verification_id s' = next_verification_id s"
    and more: "u_email ` set (users s) \<subseteq> u_email ` set (users s')"
  shows "store_inv s'"
  using inv more unfolding store_inv_def same by blast

lemma inv_updateUserPassword:
  assumes "store_inv s"
  shows "store_inv (updateUserPassword d ev wh p s)"
proof (rule inv_users [OF assms])
  have "map u_email (users (updateUserPassword d ev wh p s)) = map u_email (users s)"
    unfolding updateUserPassword_def Let_def by (simp add: map_key_pres)
  then have "set (map u_email (users (updateUserPassword d ev wh p s))) = set (map u_email (users s))"
    by simp
  then show "u_email ` set (users s) \<subseteq> u_email ` set (users (updateUserPassword d ev wh p s))"
    by simp
qed (simp_all add: updateUserPassword_def Let_def)

lemma inv_save_user:
  assumes "store_inv s" and "save_user e n p s = Inr s'"
  shows "store_inv s'"
proof (rule inv_users [OF assms(1)])
  show "verifications s' = verifications s" "next_verification_id s' = next_verification_id s"
    "u_email ` set (users s) \<subseteq> u_email ` set (users s')"
    using assms(2) by (auto simp add: save_user_def split: option.splits if_splits)
qed

lemma inv_join: "store_inv s \<Longrightarrow> store_inv (snd (join_try d ev dto s))"
proof -
  assume inv: "store_inv s"
  show ?thesis
  proof (cases "findVerification (j_email dto) Join s")
    case None
    have "store_inv (save_verification
            \<lparr>v_id = 0, v_email = j_email dto, v_nickname = Some (j_nickname dto),
             v_confirmCode = c, v_mode = DEFAULT_MODE, v_user = Some p\<rparr> s)" for c p
      by (rule inv_save [OF inv]) (simp_all add: DEFAULT_MODE_def None)
    then show ?thesis
      using inv None by (simp add: join_try_def Let_def inv_mail)
  next
    case (Some v)
    have e: "v_email v = j_email dto"
      using Some find_Some_mem unfolding findVerification_def by fastforce
    have "store_inv (update_verification (v_id v)
            (\<lambda>v. v\<lparr>v_email := j_email dto, v_nickname := Some (j_nickname dto),
                   v_confirmCode := c, v_user := Some p\<rparr>) s)" for c p
      by (rule inv_update [OF inv Some]) (simp_all add: e)
    then show ?thesis
      using Some by (simp add: join_try_def Let_def inv_mail)
  qed
qed

lemma inv_confirm: "store_inv s \<Longrightarrow> store_inv (snd (confirm_try dto s))"
  by (auto simp add: confirm_try_def inv_delete inv_save_user split: option.splits sum.splits)

lemma inv_token: "store_inv s \<Longrightarrow> store_inv (snd (saveFirebaseTokenOfUser_try i t s))"
proof -
  assume inv: "store_inv s"
  let ?s' = "snd (saveFirebaseTokenOfUser_try i t s)"
  have "map u_email (users ?s') = map u_email (users s)"
    by (simp add: saveFirebaseTokenOfUser_try_def map_key_pres)
  then have "set (map u_email (users ?s')) = set (map u_email (users s))" by simp
  then have "u_email ` set (users s) \<subseteq> u_email ` set (users ?s')" by simp
  then show ?thesis
    by (rule inv_users [OF inv, rotated 2]) (simp_all add: saveFirebaseTokenOfUser_try_def)
qed

lemma inv_changePassword: "store_inv s \<Longrightarrow> store_inv (snd (changePassword_try d ev dto s))"
  by (simp add: changePassword_try_def inv_updateUserPassword split: option.splits)

lemma inv_changePasswordNotLoggedIn:
  "store_inv s \<Longrightarrow> store_inv (snd (changePasswordNotLoggedIn_try d ev e s))"
proof -
  assume inv: "store_inv s"
  show ?thesis
  proof (cases "findUserByEmail e s")
    case None
    then show ?thesis using inv by (simp add: changePasswordNotLoggedIn_try_def)
  next
    case (Some u)
    then have own: "e \<in> u_email ` set (users s)"
      using find_Some_mem unfolding findUserByEmail_def by fastforce
    show ?thesis
    proof (cases "findVerification e Change_password s")
      case None
      have "store_inv (save_verification
              \<lparr>v_id = 0, v_email = e, v_nickname = None, v_confirmCode = c,
               v_mode = Change_password, v_user = None\<rparr> s)" for c
        by (rule inv_save [OF inv]) (simp_all add: None own)
      then show ?thesis
        using Some None by (simp add: changePasswordNotLoggedIn_try_def Let_def inv_mail)
    next
      case (Some v)
      have "store_inv (update_verification (v_id v) (\<lambda>v. v\<lparr>v_confirmCode := c\<rparr>) s)" for c
        by (rule inv_update [OF inv Some]) simp_all
      then show ?thesis
        using Some \<open>findUserByEmail e s = Some u\<close>
        by (simp add: changePasswordNotLoggedIn_try_def Let_def inv_mail)
    qed
  qed
qed

lemma inv_confirmChangePasswordNotLoggedIn:
  "store_inv s \<Longrightarrow> store_inv (snd (confirmChangePasswordNotLoggedIn_try d ev dto s))"
  by (simp add: confirmChangePasswordNotLoggedIn_try_def inv_delete inv_updateUserPassword
      split: option.splits)

lemma inv_empty: "store_inv empty_store"
  by (simp add: store_inv_def empty_store_def)

lemma reachable_inv: "reachable d s \<Longrightarrow> store_inv s"
  by (induction rule: reachable.induct)
     (simp_all add: inv_empty inv_join inv_confirm inv_token inv_changePassword
        inv_changePasswordNotLoggedIn inv_confirmChangePasswordNotLoggedIn)

section \<open>A concrete run\<close>

lemma code_ev0: "createConfirmCode (random_digits ev0) = ''012345''"
proof -
  have "createConfirmCode (\<lambda>i. i) = ''012345''" by code_simp
  then show ?thesis by (simp add: ev0_def)
qed

lemma code_ev1: "createConfirmCode (random_digits ev1) = ''987654''"
proof -
  have "createConfirmCode (\<lambda>i. 9 - i) = ''987654''" by code_simp
  then show ?thesis by (simp add: ev1_def)
qed

lemma run_st1: "join_try d0 ev0 dtoA empty_store = (Inr (), st1)"
  using code_ev0
  by (simp add: join_try_def findVerification_def empty_store_def
      checkJoinDataAvailability_def findUserByEmail_def findUserByNickname_def
      sendConfirmEmail_def save_verification_def encryptPassword_def DEFAULT_MODE_def
      d0_def ev0_def dtoA_def st1_def verificationA_def mailA_def Let_def)

lemma run_st2: "confirm_try \<lparr>c_email = ''a@x.com'', c_confirmCode = ''012345''\<rparr> st1 = (Inr (), st2)"
  by (simp add: confirm_try_def save_user_def deleteVerification_def st1_def st2_def
      verificationA_def userA_def)

lemma run_st3: "join_try d0 ev0 dtoB st2 = (Inr (), st3)"
  using code_ev0
  by (simp add: join_try_def findVerification_def
      checkJoinDataAvailability_def findUserByEmail_def findUserByNickname_def
      sendConfirmEmail_def save_verification_def encryptPassword_def DEFAULT_MODE_def
      d0_def ev0_def dtoB_def st2_def st3_def verificationB_def mailB_def userA_def Let_def)

lemma run_st4: "join_try d0 ev1 dtoB2 st3 = (Inr (), st4)"
  using code_ev1
  by (simp add: join_try_def findVerification_def
      sendConfirmEmail_def update_verification_def encryptPassword_def
      d0_def ev1_def dtoB2_def st3_def st4_def verificationB_def verificationB2_def mailB2_def
      Let_def)

lemma reachable_st1: "reachable d0 st1"
  using r_join [OF r_empty, of d0 ev0 dtoA] by (simp add: run_st1)

lemma reachable_st2: "reachable d0 st2"
  using r_confirm [OF reachable_st1, of "\<lparr>c_email = ''a@x.com'', c_confirmCode = ''012345''\<rparr>"]
  by (simp add: run_st2)

lemma reachable_st3: "reachable d0 st3"
  using r_join [OF reachable_st2, of ev0 dtoB] by (simp add: run_st3)

lemma reachable_st4: "reachable d0 st4"
  using r_join [OF reachable_st3, of ev1 dtoB2] by (simp add: run_st4)

section \<open>Properties of the authentication workflow\<close>

lemma find_after_delete: "findVerification e m (deleteVerification e m s') = None"
proof -
  have "find (\<lambda>v. v_email v = e \<and> v_mode v = m)
          (filter (\<lambda>v. \<not> (v_email v = e \<and> v_mode v = m)) (verifications s')) = None"
    by (rule find_filter_out)
  then show ?thesis by (simp add: findVerification_def deleteVerification_def)
qed

text \<open>
  C8. When no verification of mode join matches both the email and the code, the body of
  \<open>confirm\<close> throws the string \<open>Verification does not exists.\<close> and the store is left
  exactly as it was: no user is created and no verification is touched. \<open>confirm\<close> itself
  hands that string to the handler and leaves the store unchanged too.
\<close>

theorem confirm_without_match_changes_nothing:
  assumes "\<not> (\<exists>v\<in>set (verifications s).
              v_email v = c_email dto \<and> v_confirmCode v = c_confirmCode dto \<and> v_mode v = Join)"
  shows "confirm_try dto s = (Inl (Message ''Verification does not exists.''), s)
         \<and> confirm h dto s = (caught h (Message ''Verification does not exists.'') SUCCESS_RESPONSE, s)"
proof -
  have "find (\<lambda>v. v_email v = c_email dto \<and> v_confirmCode v = c_confirmCode dto \<and> v_mode v = Join)
          (verifications s) = None"
    using assms unfolding find_None_iff by blast
  then show ?thesis by (simp add: confirm_try_def confirm_def guarded_def)
qed

text \<open>The pending verification of \<open>st1\<close> carries the code 012345; the code 000000 matches nothing.\<close>

theorem confirm_without_match_changes_nothing_witness:
  "\<not> (\<exists>v\<in>set (verifications st1).
        v_email v = c_email \<lparr>c_email = ''a@x.com'', c_confirmCode = ''000000''\<rparr>
        \<and> v_confirmCode v = c_confirmCode \<lparr>c_email = ''a@x.com'', c_confirmCode = ''000000''\<rparr>
        \<and> v_mode v = Join)
   \<and> confirm_try \<lparr>c_email = ''a@x.com'', c_confirmCode = ''000000''\<rparr> st1
       = (Inl (Message ''Verification does not exists.''), st1)
   \<and> confirm exceptionHandler \<lparr>c_email = ''a@x.com'', c_confirmCode = ''000000''\<rparr> st1
       = (Returned SUCCESS_RESPONSE, st1)"
proof -
  have h: "\<not> (\<exists>v\<in>set (verifications st1).
        v_email v = c_email \<lparr>c_email = ''a@x.com'', c_confirmCode = ''000000''\<rparr>
        \<and> v_confirmCode v = c_confirmCode \<lparr>c_email = ''a@x.com'', c_confirmCode = ''000000''\<rparr>
        \<and> v_mode v = Join)"
    by (simp add: st1_def verificationA_def)
  from confirm_without_match_changes_nothing [OF h, of exceptionHandler] h
  show ?thesis by (simp add: caught_def exceptionHandler_def)
qed

text \<open>
  C9. With the handler as the spec describes it (it produces a failure object and returns),
  \<open>join\<close> returns the success value for every input and every store, whichever branch
  ran and whether the body threw or not: the thrown value goes to the handler, never into
  the return value.
\<close>

theorem join_always_returns_success:
  "fst (join exceptionHandler d ev dto s) = Returned SUCCESS_RESPONSE"
  by (simp add: join_def guarded_def caught_def exceptionHandler_def split: sum.splits)

text \<open>
  C3 (counterexample). The claim as stated lets \<open>confirm\<close> with the stored code always
  create the user and remove the verification. The store \<open>st4\<close> is reached by join for
  a@x.com, its confirm, join for b@x.com and a second join for b@x.com that takes the
  nickname of the first user. Its verification for b@x.com carries the code 987654, yet
  \<open>confirm\<close> with that code is rejected by the unique nickname of the user store: the body
  throws, the store is unchanged, the only user is still the first one and the
  verification is still retrievable by (email, join).
\<close>

theorem confirm_rejected_by_unique_nickname:
  "reachable d0 st4
   \<and> findVerification ''b@x.com'' Join st4 = Some verificationB2
   \<and> v_confirmCode verificationB2 = ''987654''
   \<and> confirm_try \<lparr>c_email = ''b@x.com'', c_confirmCode = ''987654''\<rparr> st4
       = (Inl QueryFailedError, st4)
   \<and> users st4 = [userA]
   \<and> findVerification ''b@x.com'' Join
        (snd (confirm_try \<lparr>c_email = ''b@x.com'', c_confirmCode = ''987654''\<rparr> st4))
       = Some verificationB2"
proof -
  have c: "confirm_try \<lparr>c_email = ''b@x.com'', c_confirmCode = ''987654''\<rparr> st4
       = (Inl QueryFailedError, st4)"
    by (simp add: confirm_try_def save_user_def st4_def verificationB2_def userA_def)
  have f: "findVerification ''b@x.com'' Join st4 = Some verificationB2"
    by (simp add: findVerification_def st4_def verificationB2_def)
  show ?thesis
    using reachable_st4 c f by (simp add: verificationB2_def st4_def)
qed

text \<open>
  C3 (as amended). Let \<open>v\<close> be the verification retrievable by (email, join), holding a
  nickname and a pending payload, and let no existing user have that email or that
  nickname. Then \<open>confirm\<close> with the code of \<open>v\<close> returns the success value, exactly one
  user is appended, built from the email and nickname of \<open>v\<close> and the password hash
  and admin flag of its payload, and afterwards no verification is retrievable by
  (email, join).
\<close>

theorem confirm_creates_user_and_deletes_verification:
  assumes found: "findVerification e Join s = Some v"
    and nick: "v_nickname v = Some n"
    and payload: "v_user v = Some p"
    and free: "\<not> (\<exists>u\<in>set (users s). u_email u = e \<or> u_nickname u = n)"
  shows "\<exists>s'. confirm h \<lparr>c_email = e, c_confirmCode = v_confirmCode v\<rparr> s
                 = (Returned SUCCESS_RESPONSE, s')
           \<and> users s' = users s @
                [\<lparr>u_id = next_user_id s, u_email = e, u_nickname = n,
                  u_password = pending_password p, u_is_admin = pending_is_admin p,
                  u_firebaseToken = None\<rparr>]
           \<and> findVerification e Join s' = None"
proof -
  let ?new = "\<lparr>u_id = next_user_id s, u_email = e, u_nickname = n,
                  u_password = pending_password p, u_is_admin = pending_is_admin p,
                  u_firebaseToken = None\<rparr>"
  let ?s1 = "s\<lparr>users := users s @ [?new], next_user_id := Suc (next_user_id s)\<rparr>"
  have ve: "v_email v = e"
    using found find_Some_mem unfolding findVerification_def by fastforce
  have "find (\<lambda>x. (v_email x = e \<and> v_mode x = Join) \<and> v_confirmCode x = v_confirmCode v)
          (verifications s) = Some v"
    using found unfolding findVerification_def by (rule find_conj_Some) simp
  then have look: "find (\<lambda>x. v_email x = e \<and> v_confirmCode x = v_confirmCode v \<and> v_mode x = Join)
          (verifications s) = Some v"
    by (simp add: conj_ac)
  have "find (\<lambda>u. u_email u = e \<or> u_nickname u = n) (users s) = None"
    using free unfolding find_None_iff by blast
  then have sv: "save_user e (Some n) (Some p) s = Inr ?s1"
    by (simp add: save_user_def)
  have ct: "confirm_try \<lparr>c_email = e, c_confirmCode = v_confirmCode v\<rparr> s
             = (Inr (), deleteVerification e Join ?s1)"
    by (simp add: confirm_try_def look ve nick payload sv)
  have gone: "findVerification e Join (deleteVerification e Join ?s1) = None"
    by (rule find_after_delete)
  have us: "users (deleteVerification e Join ?s1) = users s @ [?new]"
    by (simp add: deleteVerification_def)
  show ?thesis
    using ct gone us by (simp add: confirm_def guarded_def)
qed

text \<open>On \<open>st1\<close>, confirming the pending verification of a@x.com creates the user \<open>userA\<close>.\<close>

theorem confirm_creates_user_and_deletes_verification_witness:
  "findVerification ''a@x.com'' Join st1 = Some verificationA
   \<and> v_nickname verificationA = Some ''nick1''
   \<and> v_user verificationA = Some \<lparr>pending_password = ''s1pw1'', pending_is_admin = False\<rparr>
   \<and> \<not> (\<exists>u\<in>set (users st1). u_email u = ''a@x.com'' \<or> u_nickname u = ''nick1'')
   \<and> (\<exists>s'. confirm exceptionHandler \<lparr>c_email = ''a@x.com'', c_confirmCode = ''012345''\<rparr> st1
                 = (Returned SUCCESS_RESPONSE, s')
           \<and> users s' = [userA]
           \<and> findVerification ''a@x.com'' Join s' = None)"
proof -
  have h1: "findVerification ''a@x.com'' Join st1 = Some verificationA"
    by (simp add: findVerification_def st1_def verificationA_def)
  have h2: "v_nickname verificationA = Some ''nick1''"
    by (simp add: verificationA_def)
  have h3: "v_user verificationA = Some \<lparr>pending_password = ''s1pw1'', pending_is_admin = False\<rparr>"
    by (simp add: verificationA_def)
  have h4: "\<not> (\<exists>u\<in>set (users st1). u_email u = ''a@x.com'' \<or> u_nickname u = ''nick1'')"
    by (simp add: st1_def)
  have c: "v_confirmCode verificationA = ''012345''" by (simp add: verificationA_def)
  have n: "next_user_id st1 = 0" "users st1 = []" by (simp_all add: st1_def)
  from confirm_creates_user_and_deletes_verification [OF h1 h2 h3 h4, of exceptionHandler]
  show ?thesis
    unfolding c n using h1 h2 h3 h4 by (simp add: userA_def)
qed

lemma caught_not_found: "caught h err None \<noteq> Returned (Some u)"
  by (simp add: caught_def split: handled.splits)

text \<open>
  C5. Assume bcrypt never accepts the empty string as a hash. Then \<open>login\<close> returns a user
  record exactly when the user store finds that record under the email and bcrypt's
  comparison of the supplied plaintext with its stored hash succeeds. In every other case,
  whether the email is unknown or the password does not match, the body throws the same
  \<open>UNAUTHORIZED_EXCEPTION\<close> and \<open>login\<close> ends with what the handler makes of it, so the
  two failures cannot be told apart.
\<close>

theorem login_succeeds_iff_hash_matches:
  assumes empty_hash: "\<And>p. \<not> bcrypt_compare d p []"
  shows "(login h d dto s = Returned (Some u)
            \<longleftrightarrow> findUserByEmail (l_email dto) s = Some u
                \<and> bcrypt_compare d (l_password dto) (u_password u))
         \<and> ((\<forall>x. findUserByEmail (l_email dto) s = Some x
                  \<longrightarrow> \<not> bcrypt_compare d (l_password dto) (u_password x))
              \<longrightarrow> login_try d dto s = Inl UNAUTHORIZED_EXCEPTION
                  \<and> login h d dto s = caught h UNAUTHORIZED_EXCEPTION None)"
proof (cases "findUserByEmail (l_email dto) s")
  case None
  then have "login_try d dto s = Inl UNAUTHORIZED_EXCEPTION"
    by (simp add: login_try_def findUserPassword_def findUserByEmail_def)
  then show ?thesis
    using None by (simp add: login_def caught_not_found)
next
  case (Some x)
  then have pw: "findUserPassword (\<lambda>u. u_email u = l_email dto) s = Some (u_password x)"
    by (simp add: findUserPassword_def findUserByEmail_def)
  show ?thesis
  proof (cases "bcrypt_compare d (l_password dto) (u_password x)")
    case True
    then have "u_password x \<noteq> []" using empty_hash by auto
    then have "login_try d dto s = Inr (Some x)"
      using True Some by (simp add: login_try_def pw)
    then show ?thesis using True Some by (auto simp add: login_def)
  next
    case False
    then have "login_try d dto s = Inl UNAUTHORIZED_EXCEPTION"
      by (simp add: login_try_def pw)
    then show ?thesis using False Some by (auto simp add: login_def caught_not_found)
  qed
qed

text \<open>
  On \<open>st2\<close>: the right password returns the user; a wrong password and an unknown email
  end the same way.
\<close>

theorem login_succeeds_iff_hash_matches_witness:
  "(\<forall>p. \<not> bcrypt_compare d0 p [])
   \<and> login exceptionHandler d0 \<lparr>l_email = ''a@x.com'', l_password = ''pw1''\<rparr> st2
       = Returned (Some userA)
   \<and> login exceptionHandler d0 \<lparr>l_email = ''a@x.com'', l_password = ''wrong''\<rparr> st2
       = caught exceptionHandler UNAUTHORIZED_EXCEPTION None
   \<and> login exceptionHandler d0 \<lparr>l_email = ''z@x.com'', l_password = ''pw1''\<rparr> st2
       = caught exceptionHandler UNAUTHORIZED_EXCEPTION None"
proof -
  have h: "\<And>p. \<not> bcrypt_compare d0 p []" by (simp add: d0_def)
  have f: "findUserByEmail ''a@x.com'' st2 = Some userA"
    "findUserByEmail ''z@x.com'' st2 = None"
    by (simp_all add: findUserByEmail_def st2_def userA_def)
  have c: "bcrypt_compare d0 ''pw1'' (u_password userA)"
    "\<not> bcrypt_compare d0 ''wrong'' (u_password userA)"
    by (simp_all add: d0_def userA_def)
  from login_succeeds_iff_hash_matches [OF h, of exceptionHandler
      "\<lparr>l_email = ''a@x.com'', l_password = ''pw1''\<rparr>" st2 userA]
    login_succeeds_iff_hash_matches [OF h, of exceptionHandler
      "\<lparr>l_email = ''a@x.com'', l_password = ''wrong''\<rparr>" st2 userA]
    login_succeeds_iff_hash_matches [OF h, of exceptionHandler
      "\<lparr>l_email = ''z@x.com'', l_password = ''pw1''\<rparr>" st2 userA]
  show ?thesis using h f c by simp
qed

text \<open>
  C6. On a store reached by running operations one after another and holding no
  verification for (email, join): if a user or a verification has the email, \<open>join\<close>
  throws \<open>Email already exists.\<close> to the handler, also when the nickname is claimed as
  well; if nobody has the email and a user or a verification has the nickname, it throws
  \<open>Nickname already exists.\<close>. In both cases the store is unchanged.
\<close>

theorem join_rejects_claimed_email_or_nickname:
  assumes reach: "reachable d s"
    and nopending: "findVerification (j_email dto) Join s = None"
  shows "(((\<exists>u\<in>set (users s). u_email u = j_email dto)
            \<or> (\<exists>v\<in>set (verifications s). v_email v = j_email dto))
          \<longrightarrow> join h d ev dto s
                = (caught h (Message ''Email already exists.'') SUCCESS_RESPONSE, s))
         \<and> ((\<not> ((\<exists>u\<in>set (users s). u_email u = j_email dto)
                  \<or> (\<exists>v\<in>set (verifications s). v_email v = j_email dto))
              \<and> ((\<exists>u\<in>set (users s). u_nickname u = j_nickname dto)
                  \<or> (\<exists>v\<in>set (verifications s). v_nickname v = Some (j_nickname dto))))
          \<longrightarrow> join h d ev dto s
                = (caught h (Message ''Nickname already exists.'') SUCCESS_RESPONSE, s))"
proof -
  have inv: "store_inv s" using reach by (rule reachable_inv)
  have email_user: "\<exists>u\<in>set (users s). u_email u = j_email dto"
    if "\<exists>v\<in>set (verifications s). v_email v = j_email dto"
  proof -
    from that obtain v where v: "v \<in> set (verifications s)" "v_email v = j_email dto" by blast
    have "v_mode v \<noteq> Join"
      using nopending v unfolding findVerification_def find_None_iff by blast
    then have "v_mode v = Change_password" by (cases "v_mode v") simp_all
    then have "v_email v \<in> u_email ` set (users s)"
      using inv v(1) unfolding store_inv_def by blast
    then show ?thesis using v(2) by auto
  qed
  have email_case: "join h d ev dto s
      = (caught h (Message ''Email already exists.'') SUCCESS_RESPONSE, s)"
    if "\<exists>u\<in>set (users s). u_email u = j_email dto"
  proof -
    have "findUserByEmail (j_email dto) s \<noteq> None"
      using that unfolding findUserByEmail_def find_None_iff by blast
    then have "checkJoinDataAvailability (j_email dto) (j_nickname dto) s = ''Email''"
      by (simp add: checkJoinDataAvailability_def Let_def)
    then have "join_try d ev dto s = (Inl (Message ''Email already exists.''), s)"
      using nopending by (simp add: join_try_def Let_def)
    then show ?thesis by (simp add: join_def guarded_def)
  qed
  have nick_case: "join h d ev dto s
      = (caught h (Message ''Nickname already exists.'') SUCCESS_RESPONSE, s)"
    if no: "\<not> (\<exists>u\<in>set (users s). u_email u = j_email dto)"
      and cl: "(\<exists>u\<in>set (users s). u_nickname u = j_nickname dto)
                \<or> (\<exists>v\<in>set (verifications s). v_nickname v = Some (j_nickname dto))"
  proof -
    have e: "findUserByEmail (j_email dto) s = None"
      using no unfolding findUserByEmail_def find_None_iff by blast
    have "findUserByNickname (j_nickname dto) s \<noteq> None
          \<or> find (\<lambda>v. v_nickname v = Some (j_nickname dto)) (verifications s) \<noteq> None"
      using cl unfolding findUserByNickname_def find_None_iff by blast
    then have "checkJoinDataAvailability (j_email dto) (j_nickname dto) s = ''Nickname''"
      using e by (auto simp add: checkJoinDataAvailability_def Let_def)
    then have "join_try d ev dto s = (Inl (Message ''Nickname already exists.''), s)"
      using nopending by (simp add: join_try_def Let_def)
    then show ?thesis by (simp add: join_def guarded_def)
  qed
  show ?thesis using email_user email_case nick_case by blast
qed

text \<open>
  On \<open>st3\<close>: a@x.com belongs to a user and nick2 to a pending verification, so the email
  is reported; for c@x.com with nick2 the nickname is reported.
\<close>

theorem join_rejects_claimed_email_or_nickname_witness:
  "reachable d0 st3
   \<and> findVerification (j_email dtoTakenBoth) Join st3 = None
   \<and> (\<exists>u\<in>set (users st3). u_email u = j_email dtoTakenBoth)
   \<and> (\<exists>v\<in>set (verifications st3). v_nickname v = Some (j_nickname dtoTakenBoth))
   \<and> join exceptionHandler d0 ev0 dtoTakenBoth st3
       = (caught exceptionHandler (Message ''Email already exists.'') SUCCESS_RESPONSE, st3)
   \<and> findVerification (j_email dtoTakenNick) Join st3 = None
   \<and> \<not> ((\<exists>u\<in>set (users st3). u_email u = j_email dtoTakenNick)
          \<or> (\<exists>v\<in>set (verifications st3). v_email v = j_email dtoTakenNick))
   \<and> (\<exists>v\<in>set (verifications st3). v_nickname v = Some (j_nickname dtoTakenNick))
   \<and> join exceptionHandler d0 ev0 dtoTakenNick st3
       = (caught exceptionHandler (Message ''Nickname already exists.'') SUCCESS_RESPONSE, st3)"
proof -
  have n1: "findVerification (j_email dtoTakenBoth) Join st3 = None"
    by (simp add: findVerification_def dtoTakenBoth_def st3_def verificationB_def)
  have n2: "findVerification (j_email dtoTakenNick) Join st3 = None"
    by (simp add: findVerification_def dtoTakenNick_def st3_def verificationB_def)
  have a1: "\<exists>u\<in>set (users st3). u_email u = j_email dtoTakenBoth"
    by (simp add: dtoTakenBoth_def st3_def userA_def)
  have a2: "\<exists>v\<in>set (verifications st3). v_nickname v = Some (j_nickname dtoTakenBoth)"
    by (simp add: dtoTakenBoth_def st3_def verificationB_def)
  have b1: "\<not> ((\<exists>u\<in>set (users st3). u_email u = j_email dtoTakenNick)
          \<or> (\<exists>v\<in>set (verifications st3). v_email v = j_email dtoTakenNick))"
    by (simp add: dtoTakenNick_def st3_def userA_def verificationB_def)
  have b2: "\<exists>v\<in>set (verifications st3). v_nickname v = Some (j_nickname dtoTakenNick)"
    by (simp add: dtoTakenNick_def st3_def verificationB_def)
  from join_rejects_claimed_email_or_nickname [OF reachable_st3 n1, of exceptionHandler ev0]
    join_rejects_claimed_email_or_nickname [OF reachable_st3 n2, of exceptionHandler ev0]
  show ?thesis using reachable_st3 n1 n2 a1 a2 b1 b2 by blast
qed

lemma same_key_same_row:
  assumes "distinct (map (\<lambda>v. (v_email v, v_mode v)) vs)" "v \<in> set vs" "r \<in> set vs"
    "v_email r = v_email v" "v_mode r = v_mode v"
  shows "r = v"
proof -
  have "inj_on (\<lambda>v. (v_email v, v_mode v)) (set vs)"
    using assms(1) by (simp add: distinct_map)
  then show ?thesis using assms(2-5) by (auto dest: inj_onD)
qed

lemma at_most_one_of_key:
  "distinct (map k xs) \<Longrightarrow> length (filter (\<lambda>x. k x = a) xs) \<le> 1"
proof (induction xs)
  case Nil
  then show ?case by simp
next
  case (Cons x xs)
  show ?case
  proof (cases "k x = a")
    case True
    then have "a \<notin> k ` set xs" using Cons.prems by auto
    then have "filter (\<lambda>x. k x = a) xs = []" by (auto simp add: filter_empty_conv)
    then show ?thesis using True by simp
  next
    case False
    then show ?thesis using Cons by simp
  qed
qed

text \<open>The overwrite branch of join on a store with unique ids.\<close>

lemma join_overwrite:
  assumes inv: "store_inv s" and found: "findVerification (j_email dto) Join s = Some v"
  shows "fst (join_try d ev dto s) = (if mail_delivered ev then Inr () else Inl MailError)"
    and "users (snd (join_try d ev dto s)) = users s"
    and "verifications (snd (join_try d ev dto s))
           = map (\<lambda>r. if v_id r = v_id v then overwritten d ev dto v else r) (verifications s)"
    and "map v_id (verifications (snd (join_try d ev dto s))) = map v_id (verifications s)"
    and "findVerification (j_email dto) Join (snd (join_try d ev dto s)) = Some (overwritten d ev dto v)"
proof -
  let ?f = "\<lambda>r. r\<lparr>v_email := j_email dto, v_nickname := Some (j_nickname dto),
                  v_confirmCode := createConfirmCode (random_digits ev),
                  v_user := Some \<lparr>pending_password = bcrypt_hash d (j_password dto) (salt ev),
                                 pending_is_admin = (j_adminKey dto = ADMIN_KEY d)\<rparr>\<rparr>"
  let ?g = "\<lambda>r. if v_id r = v_id v then ?f r else r"
  have jt: "join_try d ev dto s
      = sendConfirmEmail d ev (j_email dto) (createConfirmCode (random_digits ev))
          (update_verification (v_id v) ?f s)"
    using found by (simp add: join_try_def Let_def encryptPassword_def)
  show "fst (join_try d ev dto s) = (if mail_delivered ev then Inr () else Inl MailError)"
    by (simp add: jt sendConfirmEmail_def)
  show "users (snd (join_try d ev dto s)) = users s"
    by (simp add: jt sendConfirmEmail_def update_verification_def)
  have vs: "verifications (snd (join_try d ev dto s)) = map ?g (verifications s)"
    by (simp add: jt sendConfirmEmail_def update_verification_def)
  have vin: "v \<in> set (verifications s)" and ve: "v_email v = j_email dto"
    and vm: "v_mode v = Join"
    using found find_Some_mem unfolding findVerification_def by fastforce+
  have d: "distinct (map v_id (verifications s))" using inv by (simp add: store_inv_def)
  have same: "\<And>r. r \<in> set (verifications s) \<Longrightarrow> v_id r = v_id v \<Longrightarrow> r = v"
    using same_id_same_row [OF d vin] by blast
  have "map ?g (verifications s) = map (\<lambda>r. if v_id r = v_id v then overwritten d ev dto v else r) (verifications s)"
    by (rule map_cong) (auto simp add: overwritten_def dest: same)
  then show "verifications (snd (join_try d ev dto s))
           = map (\<lambda>r. if v_id r = v_id v then overwritten d ev dto v else r) (verifications s)"
    using vs by simp
  show "map v_id (verifications (snd (join_try d ev dto s))) = map v_id (verifications s)"
    unfolding vs by (rule map_key_pres) simp
  have "find (\<lambda>x. v_email x = j_email dto \<and> v_mode x = Join) (map ?g (verifications s))
          = map_option ?g (find (\<lambda>x. v_email x = j_email dto \<and> v_mode x = Join) (verifications s))"
  proof (rule find_map_pres)
    fix x assume "x \<in> set (verifications s)"
    then show "(v_email (?g x) = j_email dto \<and> v_mode (?g x) = Join)
                = (v_email x = j_email dto \<and> v_mode x = Join)"
      using same [of x] ve by auto
  qed
  then show "findVerification (j_email dto) Join (snd (join_try d ev dto s)) = Some (overwritten d ev dto v)"
    using found unfolding findVerification_def vs by (simp add: overwritten_def)
qed

lemma snd_guarded: "snd (guarded h r) = snd r"
  by (simp add: guarded_def split: sum.splits)

lemma fst_guarded_ok: "fst r = Inr u \<Longrightarrow> fst (guarded h r) = Returned SUCCESS_RESPONSE"
  by (simp add: guarded_def)

text \<open>
  C10. On a store reached by running operations one after another and holding a
  verification \<open>v\<close> for (email, join), a further \<open>join\<close> for that email takes the
  overwrite branch: the body throws only if the mail cannot be sent (never an
  \<open>already exists\<close> message), the users are untouched, and the verification found
  afterwards under (email, join) is \<open>v\<close> with the new nickname, the new code and the new
  hashed password and admin flag. Nothing is assumed about who else holds the nickname.
\<close>

theorem join_overwrite_skips_availability_check:
  assumes reach: "reachable d s"
    and found: "findVerification (j_email dto) Join s = Some v"
  shows "fst (join_try d ev dto s) = (if mail_delivered ev then Inr () else Inl MailError)
         \<and> (mail_delivered ev \<longrightarrow> fst (join h d ev dto s) = Returned SUCCESS_RESPONSE)
         \<and> users (snd (join h d ev dto s)) = users s
         \<and> findVerification (j_email dto) Join (snd (join h d ev dto s))
             = Some (v\<lparr>v_nickname := Some (j_nickname dto),
                       v_confirmCode := createConfirmCode (random_digits ev),
                       v_user := Some \<lparr>pending_password = bcrypt_hash d (j_password dto) (salt ev),
                                      pending_is_admin = (j_adminKey dto = ADMIN_KEY d)\<rparr>\<rparr>)"
proof -
  have inv: "store_inv s" using reach by (rule reachable_inv)
  have ve: "v_email v = j_email dto"
    using found find_Some_mem unfolding findVerification_def by fastforce
  have ov: "overwritten d ev dto v
      = v\<lparr>v_nickname := Some (j_nickname dto),
          v_confirmCode := createConfirmCode (random_digits ev),
          v_user := Some \<lparr>pending_password = bcrypt_hash d (j_password dto) (salt ev),
                         pending_is_admin = (j_adminKey dto = ADMIN_KEY d)\<rparr>\<rparr>"
    using ve by (simp add: overwritten_def)
  note jo = join_overwrite [OF inv found, of d ev]
  have ok: "mail_delivered ev \<longrightarrow> fst (join h d ev dto s) = Returned SUCCESS_RESPONSE"
    using jo(1) by (simp add: join_def fst_guarded_ok)
  show ?thesis
    using jo(1) jo(2) jo(5) ok by (simp add: join_def snd_guarded ov)
qed

text \<open>
  On \<open>st3\<close> the nickname nick1 belongs to the user \<open>userA\<close>; the second join for b@x.com
  with nick1 succeeds and leaves the verification \<open>verificationB2\<close>.
\<close>

theorem join_overwrite_skips_availability_check_witness:
  "reachable d0 st3
   \<and> findVerification (j_email dtoB2) Join st3 = Some verificationB
   \<and> (\<exists>u\<in>set (users st3). u_nickname u = j_nickname dtoB2)
   \<and> fst (join exceptionHandler d0 ev1 dtoB2 st3) = Returned SUCCESS_RESPONSE
   \<and> findVerification (j_email dtoB2) Join (snd (join exceptionHandler d0 ev1 dtoB2 st3))
       = Some verificationB2"
proof -
  have f: "findVerification (j_email dtoB2) Join st3 = Some verificationB"
    by (simp add: findVerification_def dtoB2_def st3_def verificationB_def)
  have n: "\<exists>u\<in>set (users st3). u_nickname u = j_nickname dtoB2"
    by (simp add: dtoB2_def st3_def userA_def)
  have v: "verificationB\<lparr>v_nickname := Some (j_nickname dtoB2),
                       v_confirmCode := createConfirmCode (random_digits ev1),
                       v_user := Some \<lparr>pending_password = bcrypt_hash d0 (j_password dtoB2) (salt ev1),
                                      pending_is_admin = (j_adminKey dtoB2 = ADMIN_KEY d0)\<rparr>\<rparr>
           = verificationB2"
    using code_ev1 by (simp add: verificationB_def verificationB2_def dtoB2_def d0_def ev1_def)
  have m: "mail_delivered ev1" by (simp add: ev1_def)
  from join_overwrite_skips_availability_check [OF reachable_st3 f, of ev1 exceptionHandler]
  show ?thesis unfolding v using reachable_st3 f n m by simp
qed

text \<open>
  C4. On every store reached by running operations one after another, each
  (email, mode) pair has at most one verification; and when a verification \<open>v\<close> for
  (email, join) exists, \<open>join\<close> for that email leaves the list of verification ids as it
  was (no row is added), and the verification found afterwards under (email, join) has
  the id of \<open>v\<close> and the freshly generated code.
\<close>

theorem join_again_overwrites_in_place:
  assumes reach: "reachable d s"
  shows "(\<forall>e m. length (filter (\<lambda>v. v_email v = e \<and> v_mode v = m) (verifications s)) \<le> 1)
         \<and> (\<forall>v. findVerification (j_email dto) Join s = Some v \<longrightarrow>
               map v_id (verifications (snd (join h d ev dto s))) = map v_id (verifications s)
               \<and> (\<exists>v'. findVerification (j_email dto) Join (snd (join h d ev dto s)) = Some v'
                      \<and> v_id v' = v_id v
                      \<and> v_confirmCode v' = createConfirmCode (random_digits ev)))"
proof -
  have inv: "store_inv s" using reach by (rule reachable_inv)
  have d: "distinct (map (\<lambda>v. (v_email v, v_mode v)) (verifications s))"
    using inv by (simp add: store_inv_def)
  have one: "length (filter (\<lambda>v. v_email v = e \<and> v_mode v = m) (verifications s)) \<le> 1" for e m
    using at_most_one_of_key [OF d, of "(e, m)"] by simp
  have two: "map v_id (verifications (snd (join h d ev dto s))) = map v_id (verifications s)
             \<and> (\<exists>v'. findVerification (j_email dto) Join (snd (join h d ev dto s)) = Some v'
                    \<and> v_id v' = v_id v
                    \<and> v_confirmCode v' = createConfirmCode (random_digits ev))"
    if found: "findVerification (j_email dto) Join s = Some v" for v
  proof -
    note jo = join_overwrite [OF inv found, of d ev]
    have "v_id (overwritten d ev dto v) = v_id v"
      "v_confirmCode (overwritten d ev dto v) = createConfirmCode (random_digits ev)"
      by (simp_all add: overwritten_def)
    then show ?thesis using jo(4) jo(5) by (simp add: join_def snd_guarded)
  qed
  show ?thesis using one two by blast
qed

text \<open>On \<open>st3\<close> the second join for b@x.com keeps id 1 and replaces the code 012345 by 987654.\<close>

theorem join_again_overwrites_in_place_witness:
  "reachable d0 st3
   \<and> findVerification (j_email dtoB2) Join st3 = Some verificationB
   \<and> v_confirmCode verificationB = ''012345''
   \<and> length (filter (\<lambda>v. v_email v = ''b@x.com'' \<and> v_mode v = Join) (verifications st3)) \<le> 1
   \<and> map v_id (verifications (snd (join exceptionHandler d0 ev1 dtoB2 st3)))
       = map v_id (verifications st3)
   \<and> (\<exists>v'. findVerification (j_email dtoB2) Join (snd (join exceptionHandler d0 ev1 dtoB2 st3))
              = Some v'
            \<and> v_id v' = v_id verificationB \<and> v_confirmCode v' = ''987654'')"
proof -
  have f: "findVerification (j_email dtoB2) Join st3 = Some verificationB"
    by (simp add: findVerification_def dtoB2_def st3_def verificationB_def)
  have c: "v_confirmCode verificationB = ''012345''" by (simp add: verificationB_def)
  from join_again_overwrites_in_place [OF reachable_st3, of dtoB2 exceptionHandler ev1]
  show ?thesis unfolding code_ev1 using reachable_st3 f c by blast
qed

text \<open>After changePasswordNotLoggedIn the pending change_password verification carries the new code.\<close>

lemma changePasswordNotLoggedIn_pending:
  assumes usr: "findUserByEmail e s = Some u"
  shows "\<exists>v1. findVerification e Change_password (snd (changePasswordNotLoggedIn_try d ev e s)) = Some v1
           \<and> v_confirmCode v1 = createConfirmCode (random_digits ev)"
    and "users (snd (changePasswordNotLoggedIn_try d ev e s)) = users s"
proof -
  let ?c = "createConfirmCode (random_digits ev)"
  let ?P = "\<lambda>x. v_email x = e \<and> v_mode x = Change_password"
  let ?s1 = "snd (changePasswordNotLoggedIn_try d ev e s)"
  show "users ?s1 = users s"
    using usr
    by (simp add: changePasswordNotLoggedIn_try_def Let_def sendConfirmEmail_def
        update_verification_def save_verification_def split: option.splits)
  show "\<exists>v1. findVerification e Change_password ?s1 = Some v1 \<and> v_confirmCode v1 = ?c"
  proof (cases "findVerification e Change_password s")
    case None
    let ?new = "\<lparr>v_id = next_verification_id s, v_email = e, v_nickname = None, v_confirmCode = ?c,
                  v_mode = Change_password, v_user = None\<rparr>"
    have vs: "verifications ?s1 = verifications s @ [?new]"
      using usr None
      by (simp add: changePasswordNotLoggedIn_try_def Let_def sendConfirmEmail_def
          save_verification_def)
    have "find ?P (verifications s @ [?new]) = find ?P [?new]"
      using None unfolding findVerification_def by (rule find_append_None)
    then have "findVerification e Change_password ?s1 = Some ?new"
      unfolding findVerification_def vs by simp
    then show ?thesis by simp
  next
    case (Some v)
    let ?g = "\<lambda>r. if v_id r = v_id v then r\<lparr>v_confirmCode := ?c\<rparr> else r"
    have vs: "verifications ?s1 = map ?g (verifications s)"
      using usr Some
      by (simp add: changePasswordNotLoggedIn_try_def Let_def sendConfirmEmail_def
          update_verification_def)
    have "find ?P (map ?g (verifications s)) = map_option ?g (find ?P (verifications s))"
      by (rule find_map_pres) simp
    then have "findVerification e Change_password ?s1 = Some (v\<lparr>v_confirmCode := ?c\<rparr>)"
      using Some unfolding findVerification_def vs by simp
    then show ?thesis by simp
  qed
qed

text \<open>
  C7. On a store reached by running operations one after another in which a user \<open>u\<close> is
  found under the email: after \<open>changePasswordNotLoggedIn\<close> has drawn its code,
  \<open>confirmChangePasswordNotLoggedIn\<close> with that code leaves the user with the hash of the
  new password and no verification for (email, change_password); with any other code the
  body throws \<open>Verification does not exists.\<close> and the store, and so the password hash,
  is unchanged.
\<close>

theorem change_password_by_mail_code:
  assumes reach: "reachable d s"
    and usr: "findUserByEmail e s = Some u"
  shows "findUserByEmail e
           (snd (confirmChangePasswordNotLoggedIn h d ev_confirm
                   \<lparr>ccp_email = e, ccp_confirmCode = createConfirmCode (random_digits ev_request),
                    ccp_password = newPassword\<rparr>
                   (snd (changePasswordNotLoggedIn h d ev_request e s))))
           = Some (u\<lparr>u_password := bcrypt_hash d newPassword (salt ev_confirm)\<rparr>)
         \<and> findVerification e Change_password
             (snd (confirmChangePasswordNotLoggedIn h d ev_confirm
                     \<lparr>ccp_email = e, ccp_confirmCode = createConfirmCode (random_digits ev_request),
                      ccp_password = newPassword\<rparr>
                     (snd (changePasswordNotLoggedIn h d ev_request e s))))
             = None
         \<and> (\<forall>code. code \<noteq> createConfirmCode (random_digits ev_request) \<longrightarrow>
               confirmChangePasswordNotLoggedIn h d ev_confirm
                 \<lparr>ccp_email = e, ccp_confirmCode = code, ccp_password = newPassword\<rparr>
                 (snd (changePasswordNotLoggedIn h d ev_request e s))
               = (caught h (Message ''Verification does not exists.'') SUCCESS_RESPONSE,
                  snd (changePasswordNotLoggedIn h d ev_request e s)))"
proof -
  let ?c = "createConfirmCode (random_digits ev_request)"
  let ?s1 = "snd (changePasswordNotLoggedIn_try d ev_request e s)"
  let ?h = "bcrypt_hash d newPassword (salt ev_confirm)"
  let ?upd = "\<lambda>x. if u_email x = e then x\<lparr>u_password := ?h\<rparr> else x"
  have op1: "snd (changePasswordNotLoggedIn h d ev_request e s) = ?s1"
    by (simp add: changePasswordNotLoggedIn_def snd_guarded)
  obtain v1 where v1: "findVerification e Change_password ?s1 = Some v1"
    and c1: "v_confirmCode v1 = ?c"
    using changePasswordNotLoggedIn_pending(1) [OF usr, of d ev_request] by blast
  have us: "users ?s1 = users s"
    using changePasswordNotLoggedIn_pending(2) [OF usr] .
  have ue: "u_email u = e"
    using usr find_Some_mem unfolding findUserByEmail_def by fastforce
  \<comment> \<open>the matching code\<close>
  have "find (\<lambda>x. (v_email x = e \<and> v_mode x = Change_password) \<and> v_confirmCode x = ?c)
          (verifications ?s1) = Some v1"
    using v1 unfolding findVerification_def by (rule find_conj_Some) (rule c1)
  then have look: "find (\<lambda>x. v_email x = e \<and> v_confirmCode x = ?c \<and> v_mode x = Change_password)
          (verifications ?s1) = Some v1"
    by (simp add: conj_ac)
  let ?s2 = "deleteVerification e Change_password
               (updateUserPassword d ev_confirm (\<lambda>x. u_email x = e) newPassword ?s1)"
  have run: "snd (confirmChangePasswordNotLoggedIn h d ev_confirm
               \<lparr>ccp_email = e, ccp_confirmCode = ?c, ccp_password = newPassword\<rparr> ?s1)
             = ?s2"
    by (simp add: confirmChangePasswordNotLoggedIn_def snd_guarded
        confirmChangePasswordNotLoggedIn_try_def look)
  have users2: "users ?s2 = map ?upd (users s)"
    by (simp add: deleteVerification_def updateUserPassword_def Let_def encryptPassword_def us)
  have "find (\<lambda>x. u_email x = e) (map ?upd (users s))
          = map_option ?upd (find (\<lambda>x. u_email x = e) (users s))"
    by (rule find_map_pres) simp
  then have part1: "findUserByEmail e ?s2 = Some (u\<lparr>u_password := ?h\<rparr>)"
    using usr ue unfolding findUserByEmail_def users2 by simp
  have part2: "findVerification e Change_password ?s2 = None"
    by (rule find_after_delete)
  \<comment> \<open>any other code\<close>
  have "reachable d ?s1" using reach by (rule r_changePasswordNotLoggedIn)
  then have "store_inv ?s1" by (rule reachable_inv)
  then have dk: "distinct (map (\<lambda>v. (v_email v, v_mode v)) (verifications ?s1))"
    by (simp add: store_inv_def)
  have v1in: "v1 \<in> set (verifications ?s1)" and v1e: "v_email v1 = e"
    and v1m: "v_mode v1 = Change_password"
    using v1 find_Some_mem unfolding findVerification_def by fastforce+
  have part3: "confirmChangePasswordNotLoggedIn h d ev_confirm
                 \<lparr>ccp_email = e, ccp_confirmCode = code, ccp_password = newPassword\<rparr> ?s1
               = (caught h (Message ''Verification does not exists.'') SUCCESS_RESPONSE, ?s1)"
    if ne: "code \<noteq> ?c" for code
  proof -
    have "\<not> (\<exists>r\<in>set (verifications ?s1).
               v_email r = e \<and> v_confirmCode r = code \<and> v_mode r = Change_password)"
    proof
      assume "\<exists>r\<in>set (verifications ?s1).
               v_email r = e \<and> v_confirmCode r = code \<and> v_mode r = Change_password"
      then obtain r where r: "r \<in> set (verifications ?s1)" "v_email r = e"
        "v_confirmCode r = code" "v_mode r = Change_password" by blast
      have "r = v1"
        using same_key_same_row [OF dk v1in r(1)] r(2) r(4) v1e v1m by simp
      then show False using r(3) c1 ne by simp
    qed
    then have "find (\<lambda>x. v_email x = e \<and> v_confirmCode x = code \<and> v_mode x = Change_password)
                 (verifications ?s1) = None"
      unfolding find_None_iff by blast
    then show ?thesis
      by (simp add: confirmChangePasswordNotLoggedIn_def guarded_def
          confirmChangePasswordNotLoggedIn_try_def)
  qed
  show ?thesis
    unfolding op1 run using part1 part2 part3 by simp
qed

text \<open>
  On \<open>st2\<close>: the request draws 987654; confirming with it stores the hash of the new
  password, confirming with 000000 changes nothing.
\<close>

theorem change_password_by_mail_code_witness:
  "reachable d0 st2
   \<and> findUserByEmail ''a@x.com'' st2 = Some userA
   \<and> u_password userA = ''s1pw1''
   \<and> findUserByEmail ''a@x.com''
        (snd (confirmChangePasswordNotLoggedIn exceptionHandler d0 ev0
                \<lparr>ccp_email = ''a@x.com'', ccp_confirmCode = ''987654'', ccp_password = ''new''\<rparr>
                (snd (changePasswordNotLoggedIn exceptionHandler d0 ev1 ''a@x.com'' st2))))
       = Some (userA\<lparr>u_password := ''s1new''\<rparr>)
   \<and> findVerification ''a@x.com'' Change_password
        (snd (confirmChangePasswordNotLoggedIn exceptionHandler d0 ev0
                \<lparr>ccp_email = ''a@x.com'', ccp_confirmCode = ''987654'', ccp_password = ''new''\<rparr>
                (snd (changePasswordNotLoggedIn exceptionHandler d0 ev1 ''a@x.com'' st2))))
       = None
   \<and> confirmChangePasswordNotLoggedIn exceptionHandler d0 ev0
        \<lparr>ccp_email = ''a@x.com'', ccp_confirmCode = ''000000'', ccp_password = ''new''\<rparr>
        (snd (changePasswordNotLoggedIn exceptionHandler d0 ev1 ''a@x.com'' st2))
       = (caught exceptionHandler (Message ''Verification does not exists.'') SUCCESS_RESPONSE,
          snd (changePasswordNotLoggedIn exceptionHandler d0 ev1 ''a@x.com'' st2))"
proof -
  have f: "findUserByEmail ''a@x.com'' st2 = Some userA"
    by (simp add: findUserByEmail_def st2_def userA_def)
  have p: "u_password userA = ''s1pw1''" by (simp add: userA_def)
  have hsh: "bcrypt_hash d0 ''new'' (salt ev0) = ''s1new''" by (simp add: d0_def ev0_def)
  have ne: "''000000'' \<noteq> ''987654''" by simp
  note t = change_password_by_mail_code
    [where ev_request = ev1 and ev_confirm = ev0 and newPassword = "''new''"
       and h = exceptionHandler, OF reachable_st2 f, unfolded code_ev1 hsh]
  note t1 = t [THEN conjunct1] and t2 = t [THEN conjunct2, THEN conjunct1]
    and t3 = t [THEN conjunct2, THEN conjunct2, rule_format, OF ne]
  show ?thesis
    by (intro conjI) (rule reachable_st2 f p t1 t2 t3)+
qed

end
